theory Spec2Isabelle
  imports Complex_Main "HOL-Library.AList"
begin

section \<open>JavaScript values used by the graph code\<close>

text \<open>
  A JavaScript string is modelled as a HOL \<open>string\<close>. The code only concatenates
  strings, compares them with \<open>===\<close> and tests them for truthiness (a string is falsy
  exactly when it is empty), and all three agree with the list operations.
\<close>

text \<open>
  A JavaScript \<open>Map\<close> remembers the order in which its keys were first inserted:
  \<open>set\<close> on a key that is present replaces the value and keeps the key's place,
  \<open>set\<close> on a new key appends it, and \<open>values()\<close> lists the values in that order.
  An association list with \<open>AList.update\<close> behaves the same way.
\<close>

type_synonym ('k, 'v) js_map = "('k \<times> 'v) list"

definition map_has :: "('k, 'v) js_map \<Rightarrow> 'k \<Rightarrow> bool" where
  "map_has m k = (map_of m k \<noteq> None)"

definition map_set :: "('k, 'v) js_map \<Rightarrow> 'k \<Rightarrow> 'v \<Rightarrow> ('k, 'v) js_map" where
  "map_set m k v = AList.update k v m"

definition map_values :: "('k, 'v) js_map \<Rightarrow> 'v list" where
  "map_values m = map snd m"

section \<open>The rendered graph (the Node and Edge of the rendering library)\<close>

record XYPosition =
  pos_x :: real
  pos_y :: real

text \<open>
  \<open>data_label\<close> is the field \<open>data.label\<close>. The builders have no separate start flag:
  a node is the start node exactly when it carries the emerald class string.
\<close>

record Node =
  node_id :: string
  data_label :: string
  position :: XYPosition
  className :: string

record LabelStyle =
  ls_fill :: string
  ls_fontSize :: nat
  ls_fontWeight :: nat

text \<open>
  \<open>style_stroke\<close> is the field \<open>style.stroke\<close>. The two optional fields are absent
  (\<open>None\<close>) in the edges of the builders that do not set them.
\<close>

record Edge =
  edge_id :: string
  source :: string
  target :: string
  animated :: bool
  style_stroke :: string
  edge_label :: "string option"
  labelStyle :: "LabelStyle option"

record Graph =
  nodes :: "Node list"
  edges :: "Edge list"

definition startClassName :: string where
  "startClassName =
     ''rounded-xl border border-emerald-300 bg-emerald-500/20 text-emerald-100 shadow-lg''"

definition plainClassName :: string where
  "plainClassName =
     ''rounded-xl border border-slate-700 bg-slate-900/80 text-slate-100 shadow-md''"

definition isStart :: "Node \<Rightarrow> bool" where
  "isStart n = (className n = startClassName)"

text \<open>The template literal \<open>`${source}->${target}`\<close>.\<close>

definition edgeId :: "string \<Rightarrow> string \<Rightarrow> string" where
  "edgeId s t = s @ ''->'' @ t"

text \<open>The node object literal that every builder stores in its node map.\<close>

definition newNode :: "string \<Rightarrow> string \<Rightarrow> bool \<Rightarrow> Node" where
  "newNode i l start =
     \<lparr>node_id = i, data_label = l, position = \<lparr>pos_x = 0, pos_y = 0\<rparr>,
      className = (if start then startClassName else plainClassName)\<rparr>"

text \<open>The edge object literal of the trace builder and of the first explicit builder.\<close>

definition newEdge :: "string \<Rightarrow> string \<Rightarrow> Edge" where
  "newEdge s t =
     \<lparr>edge_id = edgeId s t, source = s, target = t, animated = True,
      style_stroke = ''#38bdf8'', edge_label = None, labelStyle = None\<rparr>"

text \<open>The edge object literal of the explicit builder that reads edge labels.\<close>

definition newLabelledEdge :: "string \<Rightarrow> string \<Rightarrow> string \<Rightarrow> Edge" where
  "newLabelledEdge s t l =
     \<lparr>edge_id = edgeId s t, source = s, target = t, animated = True,
      style_stroke = ''#38bdf8'', edge_label = Some l,
      labelStyle = Some \<lparr>ls_fill = ''#e2e8f0'', ls_fontSize = 12, ls_fontWeight = 600\<rparr>\<rparr>"

text \<open>
  The guarded insertion \<open>if (!edgeMap.has(id)) edgeMap.set(id, {id, ...})\<close>, which all
  three builders share; the key is the id of the edge object.
\<close>

definition setEdgeIfAbsent :: "(string, Edge) js_map \<Rightarrow> Edge \<Rightarrow> (string, Edge) js_map" where
  "setEdgeIfAbsent edgeMap e =
     (if \<not> map_has edgeMap (edge_id e) then map_set edgeMap (edge_id e) e else edgeMap)"

section \<open>createLayout\<close>

text \<open>
  The layout itself is computed by the third-party library dagre, whose code is not part
  of the repository. It is a parameter of the model: given the nodes set on the dagre
  graph (id, width, height), in order, and the edges set on it (source, target), in order,
  it returns the centre that \<open>graph.node(id)\<close> holds after \<open>dagre.layout(graph)\<close>.

  The parameter is a total function into the reals, so the model describes the graph
  that is delivered when \<open>dagre.layout\<close> returns with finite coordinates. The source
  calls it without a \<open>try\<close>; a call that throws, or that leaves a coordinate that is
  not a number, is outside the model. Nothing below says that the layout returns, and
  nothing below depends on a position: \<open>buildGraph_layout_independent\<close> and its
  companions show that edges, node ids, labels and classes are the same for every
  layout engine.
\<close>

type_synonym LayoutEngine =
  "(string \<times> real \<times> real) list \<Rightarrow> (string \<times> string) list \<Rightarrow> string \<Rightarrow> XYPosition"

definition nodeWidth :: real where
  "nodeWidth = 180"

definition nodeHeight :: real where
  "nodeHeight = 48"

definition createLayout :: "LayoutEngine \<Rightarrow> Node list \<Rightarrow> Edge list \<Rightarrow> Node list" where
  "createLayout dagre_layout ns es =
     (let laid = dagre_layout (map (\<lambda>node. (node_id node, nodeWidth, nodeHeight)) ns)
                              (map (\<lambda>edge. (source edge, target edge)) es)
      in map (\<lambda>node. node\<lparr>position :=
                 \<lparr>pos_x = pos_x (laid (node_id node)) - nodeWidth / 2,
                  pos_y = pos_y (laid (node_id node)) - nodeHeight / 2\<rparr>\<rparr>) ns)"

text \<open>A layout engine that puts every centre at the origin, for concrete evaluation.\<close>

definition originLayout :: LayoutEngine where
  "originLayout ns es v = \<lparr>pos_x = 0, pos_y = 0\<rparr>"

section \<open>buildGraph over a list of test cases (trace builder)\<close>

text \<open>
  Only \<open>page\<close> is read by the builder; \<open>index\<close> and \<open>action\<close>, \<open>id\<close> and \<open>name\<close> are
  carried by the input and ignored.
\<close>

record Step =
  step_index :: int
  step_page :: string
  step_action :: string

record TestCase =
  case_id :: string
  case_name :: string
  case_steps :: "Step list"

text \<open>\<open>cases[0]?.steps[0]?.page\<close>: undefined when there is no first case or no first step.\<close>

definition startPageOf :: "TestCase list \<Rightarrow> string option" where
  "startPageOf tcs =
     (case tcs of
        [] \<Rightarrow> None
      | c # _ \<Rightarrow> (case case_steps c of [] \<Rightarrow> None | s # _ \<Rightarrow> Some (step_page s)))"

text \<open>
  The body of the inner \<open>forEach\<close> for one step. \<open>rest\<close> holds the steps after it, so
  \<open>steps[index + 1]\<close> is the head of \<open>rest\<close>, and undefined when \<open>rest\<close> is empty.
\<close>

definition visitStep ::
  "string option \<Rightarrow> Step \<Rightarrow> Step list \<Rightarrow>
   (string, Node) js_map \<times> (string, Edge) js_map \<Rightarrow>
   (string, Node) js_map \<times> (string, Edge) js_map" where
  "visitStep startPage step rest st =
     (let pages = fst st; edgeMap = snd st;
          pages' =
            (if \<not> map_has pages (step_page step)
             then map_set pages (step_page step)
                    (newNode (step_page step) (step_page step) (Some (step_page step) = startPage))
             else pages);
          edgeMap' =
            (case rest of
               [] \<Rightarrow> edgeMap
             | next # _ \<Rightarrow>
                 if step_page next \<noteq> step_page step
                 then setEdgeIfAbsent edgeMap (newEdge (step_page step) (step_page next))
                 else edgeMap)
      in (pages', edgeMap'))"

fun stepsLoop ::
  "string option \<Rightarrow> Step list \<Rightarrow>
   (string, Node) js_map \<times> (string, Edge) js_map \<Rightarrow>
   (string, Node) js_map \<times> (string, Edge) js_map" where
  "stepsLoop startPage [] st = st"
| "stepsLoop startPage (step # rest) st = stepsLoop startPage rest (visitStep startPage step rest st)"

fun casesLoop ::
  "string option \<Rightarrow> TestCase list \<Rightarrow>
   (string, Node) js_map \<times> (string, Edge) js_map \<Rightarrow>
   (string, Node) js_map \<times> (string, Edge) js_map" where
  "casesLoop startPage [] st = st"
| "casesLoop startPage (testCase # rest) st =
     casesLoop startPage rest (stepsLoop startPage (case_steps testCase) st)"

definition buildGraph_cases :: "LayoutEngine \<Rightarrow> TestCase list \<Rightarrow> Graph" where
  "buildGraph_cases dagre_layout tcs =
     (let st = casesLoop (startPageOf tcs) tcs ([], []);
          ns = map_values (fst st);
          es = map_values (snd st)
      in \<lparr>nodes = createLayout dagre_layout ns es, edges = es\<rparr>)"

section \<open>buildGraph over an explicit graph record (first node is the start node)\<close>

text \<open>
  The builder reads \<open>id\<close> and \<open>label\<close> of a node and \<open>source\<close> and \<open>target\<close> of an
  edge; the other fields of the input (type, personas, environments, coverage, artifacts,
  related test suites) are display data that it never touches, and are left out.
\<close>

record AppGraphNode =
  gn_id :: string
  gn_label :: string

record AppGraphEdge =
  ge_source :: string
  ge_target :: string

record AppGraph =
  graph_nodes :: "AppGraphNode list"
  graph_edges :: "AppGraphEdge list"

fun nodesLoop ::
  "string option \<Rightarrow> AppGraphNode list \<Rightarrow> (string, Node) js_map \<Rightarrow> (string, Node) js_map" where
  "nodesLoop startNode [] nodeMap = nodeMap"
| "nodesLoop startNode (node # rest) nodeMap =
     nodesLoop startNode rest
       (map_set nodeMap (gn_id node)
          (newNode (gn_id node) (gn_label node) (Some (gn_id node) = startNode)))"

fun edgesLoop :: "AppGraphEdge list \<Rightarrow> (string, Edge) js_map \<Rightarrow> (string, Edge) js_map" where
  "edgesLoop [] edgeMap = edgeMap"
| "edgesLoop (edge # rest) edgeMap =
     edgesLoop rest (setEdgeIfAbsent edgeMap (newEdge (ge_source edge) (ge_target edge)))"

definition buildGraph :: "LayoutEngine \<Rightarrow> AppGraph \<Rightarrow> Graph" where
  "buildGraph dagre_layout graph =
     (let startNode = (case graph_nodes graph of [] \<Rightarrow> None | n # _ \<Rightarrow> Some (gn_id n));
          nodeMap = nodesLoop startNode (graph_nodes graph) [];
          edgeMap = edgesLoop (graph_edges graph) [];
          ns = map_values nodeMap;
          es = map_values edgeMap
      in \<lparr>nodes = createLayout dagre_layout ns es, edges = es\<rparr>)"

section \<open>buildGraph over an explicit graph record with entry points and edge labels\<close>

text \<open>
  A metadata value is a string, a number, a boolean or an array of strings. A number is a
  double: a finite value (read as a real), NaN, or an infinity with its sign.
\<close>

datatype JsNumber = JsFinite real | JsNaN | JsInfinity bool

datatype MetaValue =
    MString string
  | MNumber JsNumber
  | MBoolean bool
  | MStringArray "string list"

text \<open>JavaScript truthiness of a metadata value.\<close>

fun truthy :: "MetaValue \<Rightarrow> bool" where
  "truthy (MString s) = (s \<noteq> [])"
| "truthy (MNumber (JsFinite r)) = (r \<noteq> 0)"
| "truthy (MNumber JsNaN) = False"
| "truthy (MNumber (JsInfinity _)) = True"
| "truthy (MBoolean b) = b"
| "truthy (MStringArray _) = True"

text \<open>
  The builder reads \<open>id\<close>, \<open>label\<close> and \<open>metadata.entryPoint\<close> of a node and \<open>source\<close>,
  \<open>target\<close> and \<open>label\<close> of an edge; the remaining display fields are left out. A key
  that the metadata record lacks reads as undefined, which is falsy.
\<close>

record MetaGraphNode =
  mn_id :: string
  mn_label :: string
  mn_metadata :: "string \<rightharpoonup> MetaValue"

record MetaGraphEdge =
  me_source :: string
  me_target :: string
  me_label :: string

record MetaGraph =
  meta_nodes :: "MetaGraphNode list"
  meta_edges :: "MetaGraphEdge list"

text \<open>The predicate of \<open>graph.nodes.find((node) => node.metadata.entryPoint)\<close>.\<close>

definition entryPointFlag :: "MetaGraphNode \<Rightarrow> bool" where
  "entryPointFlag node =
     (case mn_metadata node ''entryPoint'' of None \<Rightarrow> False | Some v \<Rightarrow> truthy v)"

text \<open>\<open>entryNode ?? graph.nodes[0]?.id\<close>, where \<open>entryNode\<close> is \<open>find(...)?.id\<close>.\<close>

definition startNodeOf :: "MetaGraphNode list \<Rightarrow> string option" where
  "startNodeOf ns =
     (case find entryPointFlag ns of
        Some n \<Rightarrow> Some (mn_id n)
      | None \<Rightarrow> (case ns of [] \<Rightarrow> None | n # _ \<Rightarrow> Some (mn_id n)))"

fun nodesLoop_meta ::
  "string option \<Rightarrow> MetaGraphNode list \<Rightarrow> (string, Node) js_map \<Rightarrow> (string, Node) js_map" where
  "nodesLoop_meta startNode [] nodeMap = nodeMap"
| "nodesLoop_meta startNode (node # rest) nodeMap =
     nodesLoop_meta startNode rest
       (map_set nodeMap (mn_id node)
          (newNode (mn_id node) (mn_label node) (Some (mn_id node) = startNode)))"

fun edgesLoop_meta :: "MetaGraphEdge list \<Rightarrow> (string, Edge) js_map \<Rightarrow> (string, Edge) js_map" where
  "edgesLoop_meta [] edgeMap = edgeMap"
| "edgesLoop_meta (edge # rest) edgeMap =
     edgesLoop_meta rest
       (setEdgeIfAbsent edgeMap (newLabelledEdge (me_source edge) (me_target edge) (me_label edge)))"

definition buildGraph_meta :: "LayoutEngine \<Rightarrow> MetaGraph \<Rightarrow> Graph" where
  "buildGraph_meta dagre_layout graph =
     (let startNode = startNodeOf (meta_nodes graph);
          nodeMap = nodesLoop_meta startNode (meta_nodes graph) [];
          edgeMap = edgesLoop_meta (meta_edges graph) [];
          ns = map_values nodeMap;
          es = map_values edgeMap
      in \<lparr>nodes = createLayout dagre_layout ns es, edges = es\<rparr>)"

section \<open>buildHighlightSet\<close>

record HighlightSet =
  nodeIds :: "string set"
  edgeIds :: "string set"

text \<open>
  The \<open>forEach\<close> over the path. In the second equation the element is the last one, so
  \<open>path[index + 1]\<close> is undefined and nothing is added; in the third \<open>next\<close> is the
  following element, and the guard \<open>if (next)\<close> holds exactly when it is not empty.
\<close>

fun pathLoop :: "string list \<Rightarrow> string set \<Rightarrow> string set" where
  "pathLoop [] edgeIdSet = edgeIdSet"
| "pathLoop [nodeId] edgeIdSet = edgeIdSet"
| "pathLoop (nodeId # next # rest) edgeIdSet =
     pathLoop (next # rest)
       (if next \<noteq> [] then insert (edgeId nodeId next) edgeIdSet else edgeIdSet)"

definition buildHighlightSet :: "string list \<Rightarrow> HighlightSet" where
  "buildHighlightSet path = \<lparr>nodeIds = set path, edgeIds = pathLoop path {}\<rparr>"

section \<open>Sample inputs\<close>

text \<open>The mock data of the three source files, cut down to the fields the builders read.\<close>

definition mockCases :: "TestCase list" where
  "mockCases =
     [\<lparr>case_id = ''TS-001'', case_name = ''Login flow'', case_steps =
         [\<lparr>step_index = 1, step_page = ''/login'', step_action = ''navigate''\<rparr>,
          \<lparr>step_index = 2, step_page = ''/login'', step_action = ''fill_email''\<rparr>,
          \<lparr>step_index = 3, step_page = ''/dashboard'', step_action = ''redirect''\<rparr>]\<rparr>,
      \<lparr>case_id = ''TS-002'', case_name = ''Forgot password'', case_steps =
         [\<lparr>step_index = 1, step_page = ''/login'', step_action = ''navigate''\<rparr>,
          \<lparr>step_index = 2, step_page = ''/forgot-password'', step_action = ''click_link''\<rparr>,
          \<lparr>step_index = 3, step_page = ''/reset'', step_action = ''submit_form''\<rparr>]\<rparr>,
      \<lparr>case_id = ''TS-003'', case_name = ''Signup'', case_steps =
         [\<lparr>step_index = 1, step_page = ''/signup'', step_action = ''navigate''\<rparr>,
          \<lparr>step_index = 2, step_page = ''/signup'', step_action = ''fill_form''\<rparr>,
          \<lparr>step_index = 3, step_page = ''/welcome'', step_action = ''redirect''\<rparr>]\<rparr>]"

definition mockGraph :: AppGraph where
  "mockGraph =
     \<lparr>graph_nodes =
        [\<lparr>gn_id = ''/login'', gn_label = ''/login''\<rparr>,
         \<lparr>gn_id = ''/cart'', gn_label = ''/cart''\<rparr>,
         \<lparr>gn_id = ''/checkout'', gn_label = ''/checkout''\<rparr>,
         \<lparr>gn_id = ''/thank-you'', gn_label = ''/thank-you''\<rparr>,
         \<lparr>gn_id = ''/inventory'', gn_label = ''/inventory''\<rparr>,
         \<lparr>gn_id = ''/dashboard'', gn_label = ''/dashboard''\<rparr>],
      graph_edges =
        [\<lparr>ge_source = ''/login'', ge_target = ''/dashboard''\<rparr>,
         \<lparr>ge_source = ''/login'', ge_target = ''/cart''\<rparr>,
         \<lparr>ge_source = ''/cart'', ge_target = ''/checkout''\<rparr>,
         \<lparr>ge_source = ''/checkout'', ge_target = ''/thank-you''\<rparr>,
         \<lparr>ge_source = ''/inventory'', ge_target = ''/checkout''\<rparr>]\<rparr>"

text \<open>
  The first four nodes and first three edges of the mock graph with metadata, in the
  source's order but for the entry point, which is moved from the first place to the
  third: its position must not matter.
\<close>

definition mockGraph_meta :: MetaGraph where
  "mockGraph_meta =
     \<lparr>meta_nodes =
        [\<lparr>mn_id = ''node-2'', mn_label = ''Search Results'',
          mn_metadata = [''searchQuery'' \<mapsto> MString ''cats'',
                         ''resultCount'' \<mapsto> MNumber (JsFinite 17)]\<rparr>,
         \<lparr>mn_id = ''node-3'', mn_label = ''Video Player Page'',
          mn_metadata = [''videoId'' \<mapsto> MString ''abc123'']\<rparr>,
         \<lparr>mn_id = ''node-1'', mn_label = ''Home Page'',
          mn_metadata = [''entryPoint'' \<mapsto> MBoolean True,
                         ''stableSelectors'' \<mapsto> MStringArray [''input'']]\<rparr>,
         \<lparr>mn_id = ''node-4'', mn_label = ''Login with Test User'',
          mn_metadata = [''loginMethod'' \<mapsto> MString ''OAuth'']\<rparr>],
      meta_edges =
        [\<lparr>me_source = ''node-1'', me_target = ''node-2'', me_label = ''Search''\<rparr>,
         \<lparr>me_source = ''node-2'', me_target = ''node-3'', me_label = ''Click first result''\<rparr>,
         \<lparr>me_source = ''node-4'', me_target = ''node-1'', me_label = ''Login success''\<rparr>]\<rparr>"

text \<open>The mock graph with every edge of its edge list given twice.\<close>

definition doubledGraph :: AppGraph where
  "doubledGraph =
     \<lparr>graph_nodes = graph_nodes mockGraph,
      graph_edges = graph_edges mockGraph @ graph_edges mockGraph\<rparr>"

text \<open>The mock graph with metadata, its first edge given once more under another label.\<close>

definition relabelledGraph :: MetaGraph where
  "relabelledGraph =
     \<lparr>meta_nodes = meta_nodes mockGraph_meta,
      meta_edges = meta_edges mockGraph_meta @
        [\<lparr>me_source = ''node-1'', me_target = ''node-2'', me_label = ''Search again''\<rparr>]\<rparr>"

text \<open>
  A graph whose node ids contain the arrow of the edge id: the edge from \<open>a->b\<close> to \<open>c\<close>
  and the edges from \<open>a\<close> to \<open>b->c\<close> have one and the same id \<open>a->b->c\<close>.
\<close>

definition collidingGraph :: MetaGraph where
  "collidingGraph =
     \<lparr>meta_nodes =
        [\<lparr>mn_id = ''a->b'', mn_label = ''A to B'', mn_metadata = Map.empty\<rparr>,
         \<lparr>mn_id = ''c'', mn_label = ''C'', mn_metadata = Map.empty\<rparr>,
         \<lparr>mn_id = ''a'', mn_label = ''A'', mn_metadata = Map.empty\<rparr>,
         \<lparr>mn_id = ''b->c'', mn_label = ''B to C'', mn_metadata = Map.empty\<rparr>],
      meta_edges =
        [\<lparr>me_source = ''a->b'', me_target = ''c'', me_label = ''first''\<rparr>,
         \<lparr>me_source = ''a'', me_target = ''b->c'', me_label = ''second''\<rparr>,
         \<lparr>me_source = ''a'', me_target = ''b->c'', me_label = ''third''\<rparr>]\<rparr>"

section \<open>Auxiliary notions for the proofs\<close>

text \<open>
  Insertion of a key-value pair unless the key is present: what the guarded
  \<open>has\<close>/\<open>set\<close> of the builders amounts to on the association list.
\<close>

definition insertNew :: "('k \<times> 'v) list \<Rightarrow> 'k \<times> 'v \<Rightarrow> ('k \<times> 'v) list" where
  "insertNew m kv = (if fst kv \<in> fst ` set m then m else m @ [kv])"

text \<open>The pages of all steps of all test cases, in the order the trace builder visits them.\<close>

definition pagesOf :: "TestCase list \<Rightarrow> string list" where
  "pagesOf tcs = concat (map (\<lambda>tc. map step_page (case_steps tc)) tcs)"

text \<open>The pairs of consecutive steps of one test case whose pages differ.\<close>

definition transitionsOf :: "Step list \<Rightarrow> (string \<times> string) list" where
  "transitionsOf steps =
     filter (\<lambda>p. snd p \<noteq> fst p) (zip (map step_page steps) (tl (map step_page steps)))"

section \<open>The path loop of the highlight resolver\<close>

lemma pathLoop_acc: "pathLoop path acc = acc \<union> pathLoop path {}"
proof (induction path arbitrary: acc)
  case Nil
  show ?case by simp
next
  case (Cons a path)
  show ?case
  proof (cases path)
    case Nil
    then show ?thesis by simp
  next
    case (Cons b rest)
    let ?new = "if b \<noteq> [] then {edgeId a b} else {}"
    have "pathLoop (a # path) acc = pathLoop path (acc \<union> ?new)"
      using Cons by simp
    also have "\<dots> = (acc \<union> ?new) \<union> pathLoop path {}"
      by (rule Cons.IH)
    also have "\<dots> = acc \<union> (?new \<union> pathLoop path {})"
      by (rule Un_assoc)
    also have "?new \<union> pathLoop path {} = pathLoop path ?new"
      using Cons.IH [of ?new] by simp
    also have "pathLoop path ?new = pathLoop (a # path) {}"
      using Cons by simp
    finally show ?thesis .
  qed
qed

lemma pathLoop_pairs:
  "pathLoop path {} = {edgeId a b | a b. (a, b) \<in> set (zip path (tl path)) \<and> b \<noteq> []}"
proof (induction path)
  case Nil
  show ?case by simp
next
  case (Cons a path)
  show ?case
  proof (cases path)
    case Nil
    then show ?thesis by simp
  next
    case (Cons b rest)
    have "pathLoop (a # path) {} = (if b \<noteq> [] then {edgeId a b} else {}) \<union> pathLoop path {}"
      using Cons pathLoop_acc [of path "if b \<noteq> [] then {edgeId a b} else {}"] by simp
    then show ?thesis
      using Cons Cons.IH by auto
  qed
qed

lemma pathLoop_append:
  "pathLoop (xs @ a # zs) {} = pathLoop (xs @ [a]) {} \<union> pathLoop (a # zs) {}"
  by (auto simp: pathLoop_pairs zip_append1 zip_append2 tl_append split: list.splits)

section \<open>Association lists as JavaScript maps\<close>

lemma update_absent: "k \<notin> fst ` set m \<Longrightarrow> AList.update k v m = m @ [(k, v)]"
  by (induction m) auto

lemma set_update_subset: "set (AList.update k v m) \<subseteq> insert (k, v) (set m)"
  by (induction m) auto

lemma map_has_keys: "map_has m k \<longleftrightarrow> k \<in> fst ` set m"
  by (simp add: map_has_def map_of_eq_None_iff)

lemma guarded_set_insertNew:
  "(if \<not> map_has m k then map_set m k v else m) = insertNew m (k, v)"
  by (simp add: map_has_keys map_set_def insertNew_def update_absent)

lemma setEdgeIfAbsent_insertNew: "setEdgeIfAbsent m e = insertNew m (edge_id e, e)"
  unfolding setEdgeIfAbsent_def by (rule guarded_set_insertNew)

lemma insertNew_keys: "fst ` set (insertNew m kv) = insert (fst kv) (fst ` set m)"
  by (auto simp: insertNew_def)

lemma insertNew_distinct: "distinct (map fst m) \<Longrightarrow> distinct (map fst (insertNew m kv))"
  by (auto simp: insertNew_def)

lemma foldl_insertNew_distinct:
  "distinct (map fst m) \<Longrightarrow> distinct (map fst (foldl insertNew m kvs))"
  by (induction kvs arbitrary: m) (simp_all add: insertNew_distinct)

lemma foldl_insertNew_keys:
  "fst ` set (foldl insertNew m kvs) = fst ` set m \<union> fst ` set kvs"
  by (induction kvs arbitrary: m) (simp_all add: insertNew_keys)

lemma foldl_insertNew_subset:
  "set (foldl insertNew m kvs) \<subseteq> set m \<union> set kvs"
proof (induction kvs arbitrary: m)
  case Nil
  show ?case by simp
next
  case (Cons kv kvs)
  have "set (insertNew m kv) \<subseteq> insert kv (set m)"
    by (auto simp: insertNew_def)
  with Cons.IH [of "insertNew m kv"] show ?case by auto
qed

lemma insertNew_present: "fst kv \<in> fst ` set m \<Longrightarrow> insertNew m kv = m"
  by (simp add: insertNew_def)

lemma insertNew_absent: "fst kv \<notin> fst ` set m \<Longrightarrow> insertNew m kv = m @ [kv]"
  by (simp add: insertNew_def)

lemma map_of_append_present:
  assumes "fst kv \<in> fst ` set m"
  shows "map_of (m @ kv # rest) = map_of (m @ rest)"
proof
  fix x
  from assms have "map_of m (fst kv) \<noteq> None"
    by (simp add: map_of_eq_None_iff)
  then show "map_of (m @ kv # rest) x = map_of (m @ rest) x"
    by (cases "x = fst kv") (auto simp: map_add_def split: option.splits)
qed

lemma foldl_insertNew_map_of:
  "map_of (foldl insertNew m kvs) = map_of (m @ kvs)"
proof (induction kvs arbitrary: m)
  case Nil
  show ?case by simp
next
  case (Cons kv kvs)
  show ?case
  proof (cases "fst kv \<in> fst ` set m")
    case True
    then show ?thesis
      using Cons.IH [of m] by (simp only: foldl_Cons insertNew_present map_of_append_present)
  next
    case False
    then show ?thesis
      using Cons.IH [of "m @ [kv]"] by (simp add: insertNew_absent)
  qed
qed

section \<open>The guarded edge insertion\<close>

lemma foldl_setEdgeIfAbsent:
  "foldl setEdgeIfAbsent m es = foldl insertNew m (map (\<lambda>e. (edge_id e, e)) es)"
  by (induction es arbitrary: m) (simp_all add: setEdgeIfAbsent_insertNew)

lemma map_of_edge_entries:
  "map_of (map (\<lambda>e. (edge_id e, e)) es) k = find (\<lambda>e. edge_id e = k) es"
  by (induction es) auto

lemma dedup_keyed:
  assumes "(k, e) \<in> set (foldl setEdgeIfAbsent [] es)"
  shows "k = edge_id e \<and> e \<in> set es"
proof -
  have "(k, e) \<in> set (map (\<lambda>e. (edge_id e, e)) es)"
    using assms foldl_insertNew_subset [of "[]" "map (\<lambda>e. (edge_id e, e)) es"]
    by (auto simp: foldl_setEdgeIfAbsent)
  then show ?thesis by auto
qed

lemma dedup_subset: "set (map_values (foldl setEdgeIfAbsent [] es)) \<subseteq> set es"
  using dedup_keyed by (fastforce simp: map_values_def)

lemma dedup_keys_are_ids:
  "map edge_id (map_values (foldl setEdgeIfAbsent [] es)) = map fst (foldl setEdgeIfAbsent [] es)"
  using dedup_keyed [of _ _ es] by (auto simp: map_values_def)

lemma dedup_distinct: "distinct (map edge_id (map_values (foldl setEdgeIfAbsent [] es)))"
proof -
  have "distinct (map fst (foldl insertNew [] (map (\<lambda>e. (edge_id e, e)) es)))"
    by (rule foldl_insertNew_distinct) simp
  then have "distinct (map fst (foldl setEdgeIfAbsent [] es))"
    by (simp only: foldl_setEdgeIfAbsent)
  then show ?thesis
    by (simp only: dedup_keys_are_ids)
qed

lemma dedup_ids: "edge_id ` set (map_values (foldl setEdgeIfAbsent [] es)) = edge_id ` set es"
proof -
  have "edge_id ` set (map_values (foldl setEdgeIfAbsent [] es)) =
        set (map edge_id (map_values (foldl setEdgeIfAbsent [] es)))"
    by simp
  also have "\<dots> = fst ` set (foldl setEdgeIfAbsent [] es)"
    unfolding dedup_keys_are_ids by simp
  also have "\<dots> = edge_id ` set es"
    unfolding foldl_setEdgeIfAbsent foldl_insertNew_keys by (simp add: image_image)
  finally show ?thesis .
qed

lemma dedup_first:
  assumes "find (\<lambda>d. edge_id d = k) es = Some f"
  shows "f \<in> set (map_values (foldl setEdgeIfAbsent [] es))"
proof -
  have "map_of (foldl setEdgeIfAbsent [] es) k = Some f"
    using assms by (simp add: foldl_setEdgeIfAbsent foldl_insertNew_map_of map_of_edge_entries)
  then have "(k, f) \<in> set (foldl setEdgeIfAbsent [] es)"
    by (rule map_of_SomeD)
  then show ?thesis
    by (force simp: map_values_def)
qed

section \<open>The loops of the builders as folds\<close>

lemma edgesLoop_foldl:
  "edgesLoop es m = foldl setEdgeIfAbsent m (map (\<lambda>d. newEdge (ge_source d) (ge_target d)) es)"
  by (induction es arbitrary: m) simp_all

lemma edgesLoop_meta_foldl:
  "edgesLoop_meta es m =
     foldl setEdgeIfAbsent m (map (\<lambda>d. newLabelledEdge (me_source d) (me_target d) (me_label d)) es)"
  by (induction es arbitrary: m) simp_all

lemma transitionsOf_Nil: "transitionsOf [] = []"
  by (simp add: transitionsOf_def)

lemma transitionsOf_single: "transitionsOf [step] = []"
  by (simp add: transitionsOf_def)

lemma transitionsOf_Cons2:
  "transitionsOf (step # nxt # rest) =
     (if step_page nxt \<noteq> step_page step then [(step_page step, step_page nxt)] else [])
       @ transitionsOf (nxt # rest)"
  by (simp add: transitionsOf_def)

lemma stepsLoop_snd:
  "snd (stepsLoop sp steps st) =
     foldl setEdgeIfAbsent (snd st) (map (\<lambda>p. newEdge (fst p) (snd p)) (transitionsOf steps))"
proof (induction steps arbitrary: st)
  case Nil
  show ?case by (simp add: transitionsOf_Nil)
next
  case (Cons step rest)
  show ?case
  proof (cases rest)
    case Nil
    then show ?thesis
      by (simp add: visitStep_def Let_def transitionsOf_single transitionsOf_Nil)
  next
    case (Cons nxt rest')
    then show ?thesis
      using Cons.IH [of "visitStep sp step rest st"]
      by (simp add: visitStep_def Let_def transitionsOf_Cons2)
  qed
qed

lemma stepsLoop_fst:
  "fst (stepsLoop sp steps st) =
     foldl insertNew (fst st) (map (\<lambda>p. (p, newNode p p (Some p = sp))) (map step_page steps))"
proof (induction steps arbitrary: st)
  case Nil
  show ?case by simp
next
  case (Cons step rest)
  have "fst (visitStep sp step rest st) =
        insertNew (fst st) (step_page step, newNode (step_page step) (step_page step) (Some (step_page step) = sp))"
    by (simp add: visitStep_def Let_def guarded_set_insertNew)
  then show ?case
    using Cons.IH [of "visitStep sp step rest st"] by simp
qed

lemma casesLoop_snd:
  "snd (casesLoop sp tcs st) =
     foldl setEdgeIfAbsent (snd st)
       (map (\<lambda>p. newEdge (fst p) (snd p)) (concat (map (\<lambda>tc. transitionsOf (case_steps tc)) tcs)))"
  by (induction tcs arbitrary: st) (simp_all add: stepsLoop_snd)

lemma casesLoop_fst:
  "fst (casesLoop sp tcs st) =
     foldl insertNew (fst st) (map (\<lambda>p. (p, newNode p p (Some p = sp))) (pagesOf tcs))"
  by (induction tcs arbitrary: st) (simp_all add: stepsLoop_fst pagesOf_def)

section \<open>Edges of the built graphs\<close>

lemma edges_buildGraph:
  "edges (buildGraph L g) =
     map_values (foldl setEdgeIfAbsent []
       (map (\<lambda>d. newEdge (ge_source d) (ge_target d)) (graph_edges g)))"
  by (simp add: buildGraph_def Let_def edgesLoop_foldl)

lemma edges_buildGraph_meta:
  "edges (buildGraph_meta L g) =
     map_values (foldl setEdgeIfAbsent []
       (map (\<lambda>d. newLabelledEdge (me_source d) (me_target d) (me_label d)) (meta_edges g)))"
  by (simp add: buildGraph_meta_def Let_def edgesLoop_meta_foldl)

lemma edges_buildGraph_cases:
  "edges (buildGraph_cases L tcs) =
     map_values (foldl setEdgeIfAbsent []
       (map (\<lambda>p. newEdge (fst p) (snd p))
          (concat (map (\<lambda>tc. transitionsOf (case_steps tc)) tcs))))"
  by (simp add: buildGraph_cases_def Let_def casesLoop_snd)

lemma newEdge_fields [simp]:
  "edge_id (newEdge s t) = edgeId s t" "source (newEdge s t) = s" "target (newEdge s t) = t"
  "edge_label (newEdge s t) = None"
  by (simp_all add: newEdge_def)

lemma newLabelledEdge_fields [simp]:
  "edge_id (newLabelledEdge s t l) = edgeId s t" "source (newLabelledEdge s t l) = s"
  "target (newLabelledEdge s t l) = t" "edge_label (newLabelledEdge s t l) = Some l"
  by (simp_all add: newLabelledEdge_def)

lemma buildGraph_edge_origin:
  assumes "e \<in> set (edges (buildGraph L g))"
  shows "\<exists>d \<in> set (graph_edges g). e = newEdge (ge_source d) (ge_target d)"
  using assms dedup_subset [of "map (\<lambda>d. newEdge (ge_source d) (ge_target d)) (graph_edges g)"]
  by (auto simp: edges_buildGraph)

lemma buildGraph_meta_edge_origin:
  assumes "e \<in> set (edges (buildGraph_meta L g))"
  shows "\<exists>d \<in> set (meta_edges g). e = newLabelledEdge (me_source d) (me_target d) (me_label d)"
  using assms
    dedup_subset [of "map (\<lambda>d. newLabelledEdge (me_source d) (me_target d) (me_label d)) (meta_edges g)"]
  by (auto simp: edges_buildGraph_meta)

lemma buildGraph_cases_edge_origin:
  assumes "e \<in> set (edges (buildGraph_cases L tcs))"
  shows "\<exists>tc \<in> set tcs. \<exists>p \<in> set (transitionsOf (case_steps tc)). e = newEdge (fst p) (snd p)"
  using assms
    dedup_subset [of "map (\<lambda>p. newEdge (fst p) (snd p))
                        (concat (map (\<lambda>tc. transitionsOf (case_steps tc)) tcs))"]
  unfolding edges_buildGraph_cases by fastforce

lemma buildGraph_edge_ids_distinct: "distinct (map edge_id (edges (buildGraph L g)))"
  unfolding edges_buildGraph by (rule dedup_distinct)

lemma buildGraph_meta_edge_ids_distinct: "distinct (map edge_id (edges (buildGraph_meta L g)))"
  unfolding edges_buildGraph_meta by (rule dedup_distinct)

lemma buildGraph_cases_edge_ids_distinct: "distinct (map edge_id (edges (buildGraph_cases L tcs)))"
  unfolding edges_buildGraph_cases by (rule dedup_distinct)

lemma buildGraph_edge_id_set:
  "edge_id ` set (edges (buildGraph L g)) =
     (\<lambda>d. edgeId (ge_source d) (ge_target d)) ` set (graph_edges g)"
  unfolding edges_buildGraph dedup_ids by (simp add: image_image)

lemma buildGraph_meta_edge_id_set:
  "edge_id ` set (edges (buildGraph_meta L g)) =
     (\<lambda>d. edgeId (me_source d) (me_target d)) ` set (meta_edges g)"
  unfolding edges_buildGraph_meta dedup_ids by (simp add: image_image)

lemma buildGraph_cases_edge_id_set:
  "edge_id ` set (edges (buildGraph_cases L tcs)) =
     (\<lambda>p. edgeId (fst p) (snd p)) ` (\<Union>tc \<in> set tcs. set (transitionsOf (case_steps tc)))"
  unfolding edges_buildGraph_cases dedup_ids by (simp add: image_image image_UN)

lemma canonical_ids_distinct_pairs:
  assumes "distinct (map edge_id es)"
      and "\<forall>e \<in> set es. edge_id e = edgeId (source e) (target e)"
  shows "distinct (map (\<lambda>e. (source e, target e)) es)"
proof -
  have "inj_on (\<lambda>e. (source e, target e)) (set es)"
  proof (rule inj_onI)
    fix a b
    assume ab: "a \<in> set es" "b \<in> set es" "(source a, target a) = (source b, target b)"
    then have "edge_id a = edge_id b"
      using assms(2) by simp
    moreover have "inj_on edge_id (set es)"
      using assms(1) by (simp add: distinct_map)
    ultimately show "a = b"
      using ab by (auto dest: inj_onD)
  qed
  moreover have "distinct es"
    using assms(1) by (simp add: distinct_map)
  ultimately show ?thesis
    by (simp add: distinct_map)
qed

lemma unique_by_id:
  assumes "distinct (map edge_id es)" and "k \<in> edge_id ` set es"
  shows "\<exists>!e. e \<in> set es \<and> edge_id e = k"
proof -
  have "inj_on edge_id (set es)"
    using assms(1) by (simp add: distinct_map)
  then show ?thesis
    using assms(2) by (auto dest: inj_onD)
qed

section \<open>Nodes of the built graphs\<close>

lemma className_distinct: "startClassName \<noteq> plainClassName"
  by (simp add: startClassName_def plainClassName_def)

lemma newNode_fields [simp]:
  "node_id (newNode i l b) = i" "data_label (newNode i l b) = l" "isStart (newNode i l b) = b"
  using className_distinct by (auto simp: newNode_def isStart_def)

lemma createLayout_ids: "map node_id (createLayout L ns es) = map node_id ns"
  by (simp add: createLayout_def Let_def)

lemma createLayout_member:
  assumes "n \<in> set (createLayout L ns es)"
  shows "\<exists>n0 \<in> set ns. node_id n = node_id n0 \<and> isStart n = isStart n0"
  using assms by (auto simp: createLayout_def Let_def isStart_def)

lemma nodes_buildGraph:
  "nodes (buildGraph L g) =
     createLayout L
       (map_values (nodesLoop (case graph_nodes g of [] \<Rightarrow> None | n # _ \<Rightarrow> Some (gn_id n))
                      (graph_nodes g) []))
       (edges (buildGraph L g))"
  by (simp add: buildGraph_def Let_def)

lemma nodes_buildGraph_meta:
  "nodes (buildGraph_meta L g) =
     createLayout L
       (map_values (nodesLoop_meta (startNodeOf (meta_nodes g)) (meta_nodes g) []))
       (edges (buildGraph_meta L g))"
  by (simp add: buildGraph_meta_def Let_def)

lemma nodes_buildGraph_cases:
  "nodes (buildGraph_cases L tcs) =
     createLayout L
       (map_values (foldl insertNew []
          (map (\<lambda>p. (p, newNode p p (Some p = startPageOf tcs))) (pagesOf tcs))))
       (edges (buildGraph_cases L tcs))"
  by (simp add: buildGraph_cases_def Let_def casesLoop_fst)

lemma nodesLoop_keys: "fst ` set (nodesLoop sn ns m) = fst ` set m \<union> gn_id ` set ns"
  by (induction ns arbitrary: m) (auto simp: map_set_def dom_update)

lemma nodesLoop_distinct: "distinct (map fst m) \<Longrightarrow> distinct (map fst (nodesLoop sn ns m))"
  by (induction ns arbitrary: m) (simp_all add: map_set_def distinct_update)

lemma nodesLoop_entries:
  assumes "(k, n) \<in> set (nodesLoop sn ns m)"
  shows "(k, n) \<in> set m \<or> (node_id n = k \<and> (isStart n \<longleftrightarrow> Some k = sn))"
  using assms
proof (induction ns arbitrary: m)
  case Nil
  then show ?case by simp
next
  case (Cons x ns)
  let ?v = "newNode (gn_id x) (gn_label x) (Some (gn_id x) = sn)"
  from Cons.prems have "(k, n) \<in> set (nodesLoop sn ns (map_set m (gn_id x) ?v))"
    by simp
  then have "(k, n) \<in> set (map_set m (gn_id x) ?v) \<or> (node_id n = k \<and> (isStart n \<longleftrightarrow> Some k = sn))"
    by (rule Cons.IH)
  moreover have "set (map_set m (gn_id x) ?v) \<subseteq> insert (gn_id x, ?v) (set m)"
    unfolding map_set_def by (rule set_update_subset)
  ultimately show ?case by auto
qed

lemma nodesLoop_entries_empty:
  "(k, n) \<in> set (nodesLoop sn ns []) \<Longrightarrow> node_id n = k \<and> (isStart n \<longleftrightarrow> Some k = sn)"
  using nodesLoop_entries [of k n sn ns "[]"] by simp

lemma nodesLoop_meta_keys: "fst ` set (nodesLoop_meta sn ns m) = fst ` set m \<union> mn_id ` set ns"
  by (induction ns arbitrary: m) (auto simp: map_set_def dom_update)

lemma nodesLoop_meta_distinct:
  "distinct (map fst m) \<Longrightarrow> distinct (map fst (nodesLoop_meta sn ns m))"
  by (induction ns arbitrary: m) (simp_all add: map_set_def distinct_update)

lemma nodesLoop_meta_entries:
  assumes "(k, n) \<in> set (nodesLoop_meta sn ns m)"
  shows "(k, n) \<in> set m \<or> (node_id n = k \<and> (isStart n \<longleftrightarrow> Some k = sn))"
  using assms
proof (induction ns arbitrary: m)
  case Nil
  then show ?case by simp
next
  case (Cons x ns)
  let ?v = "newNode (mn_id x) (mn_label x) (Some (mn_id x) = sn)"
  from Cons.prems have "(k, n) \<in> set (nodesLoop_meta sn ns (map_set m (mn_id x) ?v))"
    by simp
  then have "(k, n) \<in> set (map_set m (mn_id x) ?v) \<or> (node_id n = k \<and> (isStart n \<longleftrightarrow> Some k = sn))"
    by (rule Cons.IH)
  moreover have "set (map_set m (mn_id x) ?v) \<subseteq> insert (mn_id x, ?v) (set m)"
    unfolding map_set_def by (rule set_update_subset)
  ultimately show ?case by auto
qed

lemma nodesLoop_meta_entries_empty:
  "(k, n) \<in> set (nodesLoop_meta sn ns []) \<Longrightarrow> node_id n = k \<and> (isStart n \<longleftrightarrow> Some k = sn)"
  using nodesLoop_meta_entries [of k n sn ns "[]"] by simp

text \<open>
  A node map whose every entry is keyed by the id of its node, with distinct keys, and
  whose nodes are start nodes exactly at the key \<open>sn\<close>.
\<close>

lemma keyed_nodes:
  assumes "\<And>k n. (k, n) \<in> set m \<Longrightarrow> node_id n = k \<and> (isStart n \<longleftrightarrow> Some k = sn)"
  shows "map node_id (createLayout L (map_values m) es) = map fst m"
    and "\<And>n. n \<in> set (createLayout L (map_values m) es) \<Longrightarrow> isStart n \<longleftrightarrow> Some (node_id n) = sn"
proof -
  show "map node_id (createLayout L (map_values m) es) = map fst m"
    using assms by (auto simp: createLayout_ids map_values_def)
next
  fix n
  assume "n \<in> set (createLayout L (map_values m) es)"
  then obtain n0 where n0: "n0 \<in> set (map_values m)" "node_id n = node_id n0" "isStart n = isStart n0"
    using createLayout_member by blast
  then obtain k where "(k, n0) \<in> set m"
    by (auto simp: map_values_def)
  then have "node_id n0 = k \<and> (isStart n0 \<longleftrightarrow> Some k = sn)"
    by (rule assms)
  then show "isStart n \<longleftrightarrow> Some (node_id n) = sn"
    using n0 by simp
qed

lemma buildGraph_node_ids:
  "map node_id (nodes (buildGraph L g)) =
     map fst (nodesLoop (case graph_nodes g of [] \<Rightarrow> None | n # _ \<Rightarrow> Some (gn_id n)) (graph_nodes g) [])"
  unfolding nodes_buildGraph
  by (rule keyed_nodes(1)) (rule nodesLoop_entries_empty)

lemma buildGraph_node_ids_distinct: "distinct (map node_id (nodes (buildGraph L g)))"
  unfolding buildGraph_node_ids by (rule nodesLoop_distinct) simp

lemma buildGraph_node_id_set: "node_id ` set (nodes (buildGraph L g)) = gn_id ` set (graph_nodes g)"
proof -
  have "node_id ` set (nodes (buildGraph L g)) = set (map node_id (nodes (buildGraph L g)))"
    by simp
  also have "\<dots> = gn_id ` set (graph_nodes g)"
    unfolding buildGraph_node_ids by (simp add: nodesLoop_keys)
  finally show ?thesis .
qed

lemma buildGraph_isStart:
  assumes "n \<in> set (nodes (buildGraph L g))"
  shows "isStart n \<longleftrightarrow>
         Some (node_id n) = (case graph_nodes g of [] \<Rightarrow> None | x # _ \<Rightarrow> Some (gn_id x))"
  using assms unfolding nodes_buildGraph
  by (rule keyed_nodes(2) [rotated]) (rule nodesLoop_entries_empty)

lemma buildGraph_meta_node_ids:
  "map node_id (nodes (buildGraph_meta L g)) =
     map fst (nodesLoop_meta (startNodeOf (meta_nodes g)) (meta_nodes g) [])"
  unfolding nodes_buildGraph_meta
  by (rule keyed_nodes(1)) (rule nodesLoop_meta_entries_empty)

lemma buildGraph_meta_node_ids_distinct: "distinct (map node_id (nodes (buildGraph_meta L g)))"
  unfolding buildGraph_meta_node_ids by (rule nodesLoop_meta_distinct) simp

lemma buildGraph_meta_node_id_set:
  "node_id ` set (nodes (buildGraph_meta L g)) = mn_id ` set (meta_nodes g)"
proof -
  have "node_id ` set (nodes (buildGraph_meta L g)) = set (map node_id (nodes (buildGraph_meta L g)))"
    by simp
  also have "\<dots> = mn_id ` set (meta_nodes g)"
    unfolding buildGraph_meta_node_ids by (simp add: nodesLoop_meta_keys)
  finally show ?thesis .
qed

lemma buildGraph_meta_isStart:
  assumes "n \<in> set (nodes (buildGraph_meta L g))"
  shows "isStart n \<longleftrightarrow> Some (node_id n) = startNodeOf (meta_nodes g)"
  using assms unfolding nodes_buildGraph_meta
  by (rule keyed_nodes(2) [rotated]) (rule nodesLoop_meta_entries_empty)

lemma page_entries:
  assumes "(k, n) \<in> set (foldl insertNew [] (map (\<lambda>p. (p, newNode p p (Some p = sp))) ps))"
  shows "node_id n = k \<and> (isStart n \<longleftrightarrow> Some k = sp)"
  using assms foldl_insertNew_subset [of "[]" "map (\<lambda>p. (p, newNode p p (Some p = sp))) ps"]
  by auto

lemma buildGraph_cases_node_ids:
  "map node_id (nodes (buildGraph_cases L tcs)) =
     map fst (foldl insertNew []
       (map (\<lambda>p. (p, newNode p p (Some p = startPageOf tcs))) (pagesOf tcs)))"
  unfolding nodes_buildGraph_cases
  by (rule keyed_nodes(1)) (rule page_entries)

lemma buildGraph_cases_node_ids_distinct: "distinct (map node_id (nodes (buildGraph_cases L tcs)))"
  unfolding buildGraph_cases_node_ids by (rule foldl_insertNew_distinct) simp

lemma buildGraph_cases_node_id_set:
  "node_id ` set (nodes (buildGraph_cases L tcs)) = set (pagesOf tcs)"
proof -
  have "node_id ` set (nodes (buildGraph_cases L tcs)) =
        set (map node_id (nodes (buildGraph_cases L tcs)))"
    by simp
  also have "\<dots> = set (pagesOf tcs)"
    unfolding buildGraph_cases_node_ids by (simp add: foldl_insertNew_keys image_image)
  finally show ?thesis .
qed

lemma buildGraph_cases_isStart:
  assumes "n \<in> set (nodes (buildGraph_cases L tcs))"
  shows "isStart n \<longleftrightarrow> Some (node_id n) = startPageOf tcs"
  using assms unfolding nodes_buildGraph_cases
  by (rule keyed_nodes(2) [rotated]) (rule page_entries)

text \<open>Exactly one element of a list with distinct ids has a given id that occurs.\<close>

lemma one_with_id:
  assumes "distinct (map node_id ns)" and "s \<in> node_id ` set ns"
      and "\<And>n. n \<in> set ns \<Longrightarrow> isStart n \<longleftrightarrow> node_id n = s"
  shows "length (filter isStart ns) = 1"
proof -
  have "filter isStart ns = filter (\<lambda>n. node_id n = s) ns"
    using assms(3) by (auto intro: filter_cong)
  moreover have "length (filter (\<lambda>n. node_id n = s) ns) = 1"
    using assms(1,2)
  proof (induction ns)
    case Nil
    then show ?case by simp
  next
    case (Cons a ns)
    show ?case
    proof (cases "node_id a = s")
      case True
      then have "s \<notin> node_id ` set ns"
        using Cons.prems(1) by auto
      then have "filter (\<lambda>n. node_id n = s) ns = []"
        by (auto simp: filter_empty_conv)
      with True show ?thesis by simp
    next
      case False
      then show ?thesis
        using Cons by auto
    qed
  qed
  ultimately show ?thesis by simp
qed

section \<open>The built graph apart from its positions\<close>

lemma buildGraph_layout_independent:
  "edges (buildGraph L g) = edges (buildGraph L' g)"
  "map node_id (nodes (buildGraph L g)) = map node_id (nodes (buildGraph L' g))"
  "map data_label (nodes (buildGraph L g)) = map data_label (nodes (buildGraph L' g))"
  "map className (nodes (buildGraph L g)) = map className (nodes (buildGraph L' g))"
  by (simp_all add: buildGraph_def Let_def createLayout_def)

lemma buildGraph_meta_layout_independent:
  "edges (buildGraph_meta L g) = edges (buildGraph_meta L' g)"
  "map node_id (nodes (buildGraph_meta L g)) = map node_id (nodes (buildGraph_meta L' g))"
  "map data_label (nodes (buildGraph_meta L g)) = map data_label (nodes (buildGraph_meta L' g))"
  "map className (nodes (buildGraph_meta L g)) = map className (nodes (buildGraph_meta L' g))"
  by (simp_all add: buildGraph_meta_def Let_def createLayout_def)

lemma buildGraph_cases_layout_independent:
  "edges (buildGraph_cases L tcs) = edges (buildGraph_cases L' tcs)"
  "map node_id (nodes (buildGraph_cases L tcs)) = map node_id (nodes (buildGraph_cases L' tcs))"
  "map data_label (nodes (buildGraph_cases L tcs)) = map data_label (nodes (buildGraph_cases L' tcs))"
  "map className (nodes (buildGraph_cases L tcs)) = map className (nodes (buildGraph_cases L' tcs))"
  by (simp_all add: buildGraph_cases_def Let_def createLayout_def)

section \<open>Evaluation of the builders on the sample inputs\<close>

lemmas eval_defs = buildGraph_def buildGraph_cases_def buildGraph_meta_def Let_def map_values_def
  setEdgeIfAbsent_def map_has_def map_set_def newEdge_def newLabelledEdge_def newNode_def edgeId_def
  createLayout_def visitStep_def startPageOf_def startNodeOf_def entryPointFlag_def

lemma mockGraph_edge_ids:
  "map edge_id (edges (buildGraph L mockGraph)) =
     [''/login->/dashboard'', ''/login->/cart'', ''/cart->/checkout'',
      ''/checkout->/thank-you'', ''/inventory->/checkout'']"
  by (simp add: eval_defs mockGraph_def)

lemma mockGraph_node_ids:
  "map node_id (nodes (buildGraph L mockGraph)) =
     [''/login'', ''/cart'', ''/checkout'', ''/thank-you'', ''/inventory'', ''/dashboard'']"
  by (simp add: eval_defs mockGraph_def)

section \<open>Highlight sets against the graph\<close>

lemma pathLoop_subset_iff:
  "pathLoop path {} \<subseteq> E \<longleftrightarrow>
     (\<forall>p \<in> set (zip path (tl path)). snd p \<noteq> [] \<longrightarrow> edgeId (fst p) (snd p) \<in> E)"
  unfolding pathLoop_pairs by fastforce

text \<open>
  C1, as the code has it. \<open>buildHighlightSet\<close> takes the path alone and never sees the
  graph: its node set is the set of all ids of the path, and its edge set holds the id
  of every consecutive pair whose second id is not empty. So, for any graph \<open>G\<close>, the
  node set lies within the node ids of \<open>G\<close> exactly when every id of the path is a
  node id of \<open>G\<close>, and the edge set lies within the edge ids of \<open>G\<close> exactly when the id
  of every consecutive pair with a non-empty second id is an edge id of \<open>G\<close>. The empty
  path yields two empty sets.
\<close>

theorem highlight_sets_follow_path_only:
  "nodeIds (buildHighlightSet path) = set path
   \<and> (nodeIds (buildHighlightSet path) \<subseteq> node_id ` set (nodes G)
      \<longleftrightarrow> set path \<subseteq> node_id ` set (nodes G))
   \<and> (edgeIds (buildHighlightSet path) \<subseteq> edge_id ` set (edges G)
      \<longleftrightarrow> (\<forall>p \<in> set (zip path (tl path)).
             snd p \<noteq> '''' \<longrightarrow> edgeId (fst p) (snd p) \<in> edge_id ` set (edges G)))
   \<and> buildHighlightSet [] = \<lparr>nodeIds = {}, edgeIds = {}\<rparr>"
  by (simp add: buildHighlightSet_def pathLoop_subset_iff)

text \<open>
  The path of the test suite TS-42 runs along edges of the mock graph, so both of its
  highlight sets lie within the graph.
\<close>

theorem highlight_sets_follow_path_only_witness:
  "nodeIds (buildHighlightSet [''/login'', ''/cart'', ''/checkout'', ''/thank-you''])
     \<subseteq> node_id ` set (nodes (buildGraph originLayout mockGraph))
   \<and> edgeIds (buildHighlightSet [''/login'', ''/cart'', ''/checkout'', ''/thank-you''])
     \<subseteq> edge_id ` set (edges (buildGraph originLayout mockGraph))"
proof -
  have e: "edge_id ` set (edges (buildGraph originLayout mockGraph)) =
        set (map edge_id (edges (buildGraph originLayout mockGraph)))"
    by simp
  have n: "node_id ` set (nodes (buildGraph originLayout mockGraph)) =
        set (map node_id (nodes (buildGraph originLayout mockGraph)))"
    by simp
  show ?thesis
    using highlight_sets_follow_path_only
      [of "[''/login'', ''/cart'', ''/checkout'', ''/thank-you'']" "buildGraph originLayout mockGraph"]
    unfolding e n mockGraph_edge_ids mockGraph_node_ids
    by (simp add: edgeId_def)
qed

text \<open>
  C1 as stated fails. On the mock graph, the path from \<open>/login\<close> to \<open>/checkout\<close> puts
  the id \<open>/login->/checkout\<close> into the edge set although the graph has no such edge, and
  a path through \<open>/settings\<close> puts that id into the node set although the graph has no
  such node.
\<close>

theorem highlight_not_within_graph:
  "edgeId ''/login'' ''/checkout'' \<in> edgeIds (buildHighlightSet [''/login'', ''/checkout''])
   \<and> edgeId ''/login'' ''/checkout'' \<notin> edge_id ` set (edges (buildGraph originLayout mockGraph))
   \<and> ''/settings'' \<in> nodeIds (buildHighlightSet [''/login'', ''/settings''])
   \<and> ''/settings'' \<notin> node_id ` set (nodes (buildGraph originLayout mockGraph))"
proof -
  have e: "edge_id ` set (edges (buildGraph originLayout mockGraph)) =
        set (map edge_id (edges (buildGraph originLayout mockGraph)))"
    by simp
  have n: "node_id ` set (nodes (buildGraph originLayout mockGraph)) =
        set (map node_id (nodes (buildGraph originLayout mockGraph)))"
    by simp
  show ?thesis
    unfolding e n mockGraph_edge_ids mockGraph_node_ids
    by (simp add: buildHighlightSet_def edgeId_def)
qed

text \<open>
  C10. A consecutive pair whose second id is the empty string adds no edge id: the edge
  set of a path through such a pair is the union of the edge sets of the two pieces on
  either side of it, and the path that is just such a pair has no edge id at all. The
  empty string is nevertheless in the node set.
\<close>

theorem empty_successor_adds_no_edge:
  "edgeIds (buildHighlightSet (xs @ a # '''' # ys)) =
     edgeIds (buildHighlightSet (xs @ [a])) \<union> edgeIds (buildHighlightSet ('''' # ys))
   \<and> edgeIds (buildHighlightSet [a, '''']) = {}
   \<and> '''' \<in> nodeIds (buildHighlightSet (xs @ a # '''' # ys))"
proof -
  have "pathLoop (xs @ a # '''' # ys) {} = pathLoop (xs @ [a]) {} \<union> pathLoop (a # '''' # ys) {}"
    by (rule pathLoop_append)
  moreover have "pathLoop (a # '''' # ys) {} = pathLoop ('''' # ys) {}"
    by simp
  ultimately show ?thesis
    by (simp add: buildHighlightSet_def)
qed

section \<open>Self-loops and dangling edges\<close>

lemma transitionsOf_member:
  "p \<in> set (transitionsOf steps) \<longleftrightarrow>
     p \<in> set (zip (map step_page steps) (tl (map step_page steps))) \<and> snd p \<noteq> fst p"
  by (simp add: transitionsOf_def)



lemma buildGraph_cases_edge_pair:
  assumes "e \<in> set (edges (buildGraph_cases L tcs))"
  shows "\<exists>tc \<in> set tcs.
           (source e, target e) \<in> set (zip (map step_page (case_steps tc))
                                            (tl (map step_page (case_steps tc))))
           \<and> target e \<noteq> source e"
proof -
  from assms obtain tc p where tc: "tc \<in> set tcs" and p: "p \<in> set (transitionsOf (case_steps tc))"
    and e: "e = newEdge (fst p) (snd p)"
    using buildGraph_cases_edge_origin by blast
  from p have "(source e, target e) \<in> set (zip (map step_page (case_steps tc))
                                                (tl (map step_page (case_steps tc))))
               \<and> target e \<noteq> source e"
    unfolding e by (simp add: transitionsOf_member)
  with tc show ?thesis by blast
qed




text \<open>
  C2, as the code has it. The trace builder never creates a self-loop: every edge it
  builds joins the pages of two consecutive steps of one test case, and these pages
  differ. The two builders over an explicit graph record copy the source and target of
  input edges as they are, so their output has no self-loop when the input edge list has
  none.
\<close>

theorem self_loops_only_from_explicit_input:
  "(\<forall>e \<in> set (edges (buildGraph_cases L tcs)).
      source e \<noteq> target e \<and>
      (\<exists>tc \<in> set tcs. (source e, target e) \<in> set (zip (map step_page (case_steps tc))
                                                        (tl (map step_page (case_steps tc))))))
   \<and> ((\<forall>d \<in> set (graph_edges g). ge_source d \<noteq> ge_target d) \<longrightarrow>
        (\<forall>e \<in> set (edges (buildGraph L g)). source e \<noteq> target e))
   \<and> ((\<forall>d \<in> set (meta_edges h). me_source d \<noteq> me_target d) \<longrightarrow>
        (\<forall>e \<in> set (edges (buildGraph_meta L h)). source e \<noteq> target e))"
proof (intro conjI ballI impI)
  fix e
  assume "e \<in> set (edges (buildGraph_cases L tcs))"
  then show "source e \<noteq> target e"
    using buildGraph_cases_edge_pair by fastforce
next
  fix e
  assume "e \<in> set (edges (buildGraph_cases L tcs))"
  then show "\<exists>tc \<in> set tcs. (source e, target e) \<in> set (zip (map step_page (case_steps tc))
                                                            (tl (map step_page (case_steps tc))))"
    using buildGraph_cases_edge_pair by blast
next
  fix e
  assume "\<forall>d \<in> set (graph_edges g). ge_source d \<noteq> ge_target d"
    and "e \<in> set (edges (buildGraph L g))"
  then show "source e \<noteq> target e"
    using buildGraph_edge_origin by fastforce
next
  fix e
  assume "\<forall>d \<in> set (meta_edges h). me_source d \<noteq> me_target d"
    and "e \<in> set (edges (buildGraph_meta L h))"
  then show "source e \<noteq> target e"
    using buildGraph_meta_edge_origin by fastforce
qed

text \<open>
  The three mock inputs: the test cases stay twice on one page, and the two mock graphs
  have no self-loop.
\<close>

theorem self_loops_only_from_explicit_input_witness:
  "list_all (\<lambda>e. source e \<noteq> target e) (edges (buildGraph_cases originLayout mockCases))
   \<and> list_all (\<lambda>d. ge_source d \<noteq> ge_target d) (graph_edges mockGraph)
   \<and> list_all (\<lambda>e. source e \<noteq> target e) (edges (buildGraph originLayout mockGraph))
   \<and> list_all (\<lambda>d. me_source d \<noteq> me_target d) (meta_edges mockGraph_meta)
   \<and> list_all (\<lambda>e. source e \<noteq> target e) (edges (buildGraph_meta originLayout mockGraph_meta))"
proof -
  have g: "\<forall>d \<in> set (graph_edges mockGraph). ge_source d \<noteq> ge_target d"
    by (simp add: mockGraph_def)
  have h: "\<forall>d \<in> set (meta_edges mockGraph_meta). me_source d \<noteq> me_target d"
    by (simp add: mockGraph_meta_def)
  show ?thesis
    using g h self_loops_only_from_explicit_input [of originLayout mockCases mockGraph mockGraph_meta]
    unfolding list_all_iff by blast
qed

text \<open>
  C2 as stated fails for an explicit graph record: an input edge from \<open>/login\<close> to
  \<open>/login\<close> is built as it is.
\<close>

theorem explicit_self_loop_is_built:
  "edges (buildGraph originLayout
      \<lparr>graph_nodes = [\<lparr>gn_id = ''/login'', gn_label = ''/login''\<rparr>],
       graph_edges = [\<lparr>ge_source = ''/login'', ge_target = ''/login''\<rparr>]\<rparr>)
     = [newEdge ''/login'' ''/login'']
   \<and> source (newEdge ''/login'' ''/login'') = target (newEdge ''/login'' ''/login'')"
  by (simp add: eval_defs)




section \<open>The start node\<close>

lemma startNodeOf_nonempty:
  assumes "ns \<noteq> []"
  shows "startNodeOf ns =
           Some (case find entryPointFlag ns of Some x \<Rightarrow> mn_id x | None \<Rightarrow> mn_id (hd ns))"
  using assms by (cases ns) (auto simp: startNodeOf_def split: option.splits)

lemma find_member: "find P xs = Some x \<Longrightarrow> x \<in> set xs \<and> P x"
  by (induction xs) (auto split: if_splits)

lemma find_None: "find P xs = None \<longleftrightarrow> (\<forall>x \<in> set xs. \<not> P x)"
  by (induction xs) auto

lemma start_id_is_node_id:
  assumes "ns \<noteq> []"
  shows "(case find entryPointFlag ns of Some x \<Rightarrow> mn_id x | None \<Rightarrow> mn_id (hd ns)) \<in> mn_id ` set ns"
proof (cases "find entryPointFlag ns")
  case None
  then show ?thesis
    using assms by simp
next
  case (Some x)
  then have "x \<in> set ns"
    using find_member by fastforce
  with Some show ?thesis by simp
qed

lemma startPageOf_in_pages: "startPageOf tcs = Some s \<Longrightarrow> s \<in> set (pagesOf tcs)"
  by (auto simp: startPageOf_def pagesOf_def split: list.splits)

lemma buildGraph_one_start:
  assumes "graph_nodes g \<noteq> []"
  shows "length (filter isStart (nodes (buildGraph L g))) = 1"
proof (rule one_with_id)
  show "distinct (map node_id (nodes (buildGraph L g)))"
    by (rule buildGraph_node_ids_distinct)
  show "gn_id (hd (graph_nodes g)) \<in> node_id ` set (nodes (buildGraph L g))"
    using assms by (simp add: buildGraph_node_id_set)
  show "isStart n \<longleftrightarrow> node_id n = gn_id (hd (graph_nodes g))"
    if "n \<in> set (nodes (buildGraph L g))" for n
    using that assms buildGraph_isStart [of n L g] by (cases "graph_nodes g") auto
qed

lemma buildGraph_meta_one_start:
  assumes "meta_nodes g \<noteq> []"
  shows "length (filter isStart (nodes (buildGraph_meta L g))) = 1"
proof (rule one_with_id)
  let ?s = "case find entryPointFlag (meta_nodes g) of
              Some x \<Rightarrow> mn_id x | None \<Rightarrow> mn_id (hd (meta_nodes g))"
  show "distinct (map node_id (nodes (buildGraph_meta L g)))"
    by (rule buildGraph_meta_node_ids_distinct)
  show "?s \<in> node_id ` set (nodes (buildGraph_meta L g))"
    unfolding buildGraph_meta_node_id_set using assms by (rule start_id_is_node_id)
  show "isStart n \<longleftrightarrow> node_id n = ?s" if "n \<in> set (nodes (buildGraph_meta L g))" for n
    using that buildGraph_meta_isStart [of n L g] startNodeOf_nonempty [OF assms] by auto
qed

lemma buildGraph_cases_one_start:
  assumes "startPageOf tcs = Some s"
  shows "length (filter isStart (nodes (buildGraph_cases L tcs))) = 1"
proof (rule one_with_id)
  show "distinct (map node_id (nodes (buildGraph_cases L tcs)))"
    by (rule buildGraph_cases_node_ids_distinct)
  show "s \<in> node_id ` set (nodes (buildGraph_cases L tcs))"
    using assms by (simp add: buildGraph_cases_node_id_set startPageOf_in_pages)
  show "isStart n \<longleftrightarrow> node_id n = s" if "n \<in> set (nodes (buildGraph_cases L tcs))" for n
    using that assms buildGraph_cases_isStart [of n L tcs] by auto
qed

lemma buildGraph_cases_no_start:
  assumes "startPageOf tcs = None"
  shows "filter isStart (nodes (buildGraph_cases L tcs)) = []"
  using assms buildGraph_cases_isStart [of _ L tcs] by (auto simp: filter_empty_conv)

text \<open>
  C4 asks for exactly one start node in every built graph that has a node. The builders
  over an explicit graph record deliver it (\<open>buildGraph_one_start\<close>,
  \<open>buildGraph_meta_one_start\<close>), and so does the trace builder when the first test case
  has a step (\<open>buildGraph_cases_one_start\<close>). But the trace builder takes the start page
  from the first step of the first test case alone (\<open>buildGraph_cases_no_start\<close>): when
  the first test case has no step and a later one has, the built graph has a node and
  no start node.
\<close>

theorem empty_first_case_leaves_no_start:
  "map node_id (nodes (buildGraph_cases originLayout
      [\<lparr>case_id = ''TS-000'', case_name = ''Empty'', case_steps = []\<rparr>,
       \<lparr>case_id = ''TS-001'', case_name = ''Login flow'', case_steps =
          [\<lparr>step_index = 1, step_page = ''/login'', step_action = ''navigate''\<rparr>]\<rparr>]))
     = [''/login'']
   \<and> filter isStart (nodes (buildGraph_cases originLayout
      [\<lparr>case_id = ''TS-000'', case_name = ''Empty'', case_steps = []\<rparr>,
       \<lparr>case_id = ''TS-001'', case_name = ''Login flow'', case_steps =
          [\<lparr>step_index = 1, step_page = ''/login'', step_action = ''navigate''\<rparr>]\<rparr>])) = []"
  by (simp add: eval_defs isStart_def startClassName_def plainClassName_def)

text \<open>
  C5. For an explicit graph record with at least one node, exactly one node of the built
  graph is the start node. With metadata, it is the node whose id is that of the first
  input node whose \<open>metadata.entryPoint\<close> is truthy, and the node with the id of the
  first input node when no input node is flagged; so a flagged node is the start node
  wherever it stands in the node list, provided that all flagged nodes share its id.
  Without metadata, it is the node with the id of the first input node.
\<close>

theorem start_node_is_entry_point_or_first:
  "(meta_nodes g \<noteq> [] \<longrightarrow>
      length (filter isStart (nodes (buildGraph_meta L g))) = 1 \<and>
      (\<forall>n \<in> set (nodes (buildGraph_meta L g)).
         isStart n \<longleftrightarrow>
         node_id n = (case find entryPointFlag (meta_nodes g) of
                        Some x \<Rightarrow> mn_id x | None \<Rightarrow> mn_id (hd (meta_nodes g)))))
   \<and> (\<forall>x \<in> set (meta_nodes g).
        entryPointFlag x \<and> (\<forall>y \<in> set (meta_nodes g). entryPointFlag y \<longrightarrow> mn_id y = mn_id x) \<longrightarrow>
        (\<exists>n \<in> set (nodes (buildGraph_meta L g)). node_id n = mn_id x \<and> isStart n))
   \<and> (graph_nodes g' \<noteq> [] \<longrightarrow>
        length (filter isStart (nodes (buildGraph L g'))) = 1 \<and>
        (\<forall>n \<in> set (nodes (buildGraph L g')).
           isStart n \<longleftrightarrow> node_id n = gn_id (hd (graph_nodes g'))))"
proof (intro conjI impI ballI)
  assume "meta_nodes g \<noteq> []"
  then show "length (filter isStart (nodes (buildGraph_meta L g))) = 1"
    by (rule buildGraph_meta_one_start)
next
  fix n
  assume ne: "meta_nodes g \<noteq> []" and n: "n \<in> set (nodes (buildGraph_meta L g))"
  show "isStart n \<longleftrightarrow>
        node_id n = (case find entryPointFlag (meta_nodes g) of
                       Some x \<Rightarrow> mn_id x | None \<Rightarrow> mn_id (hd (meta_nodes g)))"
    using buildGraph_meta_isStart [OF n] startNodeOf_nonempty [OF ne] by auto
next
  fix x
  assume x: "x \<in> set (meta_nodes g)"
    and flagged: "entryPointFlag x \<and>
                  (\<forall>y \<in> set (meta_nodes g). entryPointFlag y \<longrightarrow> mn_id y = mn_id x)"
  from x have ne: "meta_nodes g \<noteq> []"
    by auto
  from x flagged obtain y where y: "find entryPointFlag (meta_nodes g) = Some y"
    using find_None [of entryPointFlag "meta_nodes g"] by (cases "find entryPointFlag (meta_nodes g)") auto
  then have "mn_id y = mn_id x"
    using flagged find_member by fastforce
  with y have start: "startNodeOf (meta_nodes g) = Some (mn_id x)"
    using startNodeOf_nonempty [OF ne] by simp
  from x have "mn_id x \<in> node_id ` set (nodes (buildGraph_meta L g))"
    by (simp add: buildGraph_meta_node_id_set)
  then obtain n where n: "n \<in> set (nodes (buildGraph_meta L g))" "node_id n = mn_id x"
    by auto
  then have "isStart n"
    using buildGraph_meta_isStart [OF n(1)] start by simp
  with n show "\<exists>n \<in> set (nodes (buildGraph_meta L g)). node_id n = mn_id x \<and> isStart n"
    by blast
next
  assume "graph_nodes g' \<noteq> []"
  then show "length (filter isStart (nodes (buildGraph L g'))) = 1"
    by (rule buildGraph_one_start)
next
  fix n
  assume "graph_nodes g' \<noteq> []" and "n \<in> set (nodes (buildGraph L g'))"
  then show "isStart n \<longleftrightarrow> node_id n = gn_id (hd (graph_nodes g'))"
    using buildGraph_isStart [of n L g'] by (cases "graph_nodes g'") auto
qed

text \<open>
  In the mock graph with metadata the entry point \<open>node-1\<close> stands third in the node
  list; the mock graph without metadata starts at its first node \<open>/login\<close>.
\<close>

theorem start_node_is_entry_point_or_first_witness:
  "meta_nodes mockGraph_meta \<noteq> []
   \<and> map mn_id (filter entryPointFlag (meta_nodes mockGraph_meta)) = [''node-1'']
   \<and> length (filter isStart (nodes (buildGraph_meta originLayout mockGraph_meta))) = 1
   \<and> list_all (\<lambda>n. isStart n \<longleftrightarrow> node_id n = ''node-1'')
        (nodes (buildGraph_meta originLayout mockGraph_meta))
   \<and> graph_nodes mockGraph \<noteq> []
   \<and> length (filter isStart (nodes (buildGraph originLayout mockGraph))) = 1
   \<and> list_all (\<lambda>n. isStart n \<longleftrightarrow> node_id n = ''/login'')
        (nodes (buildGraph originLayout mockGraph))"
proof -
  have m: "meta_nodes mockGraph_meta \<noteq> []"
    by (simp add: mockGraph_meta_def)
  have f: "map mn_id (filter entryPointFlag (meta_nodes mockGraph_meta)) = [''node-1'']"
    by (simp add: mockGraph_meta_def entryPointFlag_def)
  have s: "(case find entryPointFlag (meta_nodes mockGraph_meta) of
              Some x \<Rightarrow> mn_id x | None \<Rightarrow> mn_id (hd (meta_nodes mockGraph_meta))) = ''node-1''"
    by (simp add: mockGraph_meta_def entryPointFlag_def)
  have g: "graph_nodes mockGraph \<noteq> []"
    by (simp add: mockGraph_def)
  have h: "gn_id (hd (graph_nodes mockGraph)) = ''/login''"
    by (simp add: mockGraph_def)
  show ?thesis
    using m f g start_node_is_entry_point_or_first [of mockGraph_meta originLayout mockGraph]
    unfolding s h list_all_iff by blast
qed

section \<open>One edge per pair of source and target\<close>

lemma transitionsOf_index:
  assumes "Suc i < length steps"
      and "step_page (steps ! i) \<noteq> step_page (steps ! Suc i)"
  shows "(step_page (steps ! i), step_page (steps ! Suc i)) \<in> set (transitionsOf steps)"
proof -
  let ?ps = "map step_page steps"
  have "zip ?ps (tl ?ps) ! i \<in> set (zip ?ps (tl ?ps))"
    using assms(1) by (intro nth_mem) simp
  then have "(step_page (steps ! i), step_page (steps ! Suc i)) \<in> set (zip ?ps (tl ?ps))"
    using assms(1) by (simp add: nth_tl)
  then show ?thesis
    using assms(2) by (simp add: transitionsOf_member)
qed

lemma buildGraph_cases_canonical:
  "e \<in> set (edges (buildGraph_cases L tcs)) \<Longrightarrow> edge_id e = edgeId (source e) (target e)"
  using buildGraph_cases_edge_origin by fastforce

lemma buildGraph_canonical:
  "e \<in> set (edges (buildGraph L g)) \<Longrightarrow> edge_id e = edgeId (source e) (target e)"
  using buildGraph_edge_origin by fastforce

lemma buildGraph_meta_canonical:
  "e \<in> set (edges (buildGraph_meta L g)) \<Longrightarrow> edge_id e = edgeId (source e) (target e)"
  using buildGraph_meta_edge_origin by fastforce

lemma buildGraph_cases_one_edge:
  assumes "tc \<in> set tcs" and "Suc i < length (case_steps tc)"
      and "step_page (case_steps tc ! i) \<noteq> step_page (case_steps tc ! Suc i)"
  shows "\<exists>!e. e \<in> set (edges (buildGraph_cases L tcs)) \<and>
              edge_id e = edgeId (step_page (case_steps tc ! i)) (step_page (case_steps tc ! Suc i))"
proof (rule unique_by_id)
  show "distinct (map edge_id (edges (buildGraph_cases L tcs)))"
    by (rule buildGraph_cases_edge_ids_distinct)
  have "(step_page (case_steps tc ! i), step_page (case_steps tc ! Suc i))
          \<in> set (transitionsOf (case_steps tc))"
    using assms(2,3) by (rule transitionsOf_index)
  then show "edgeId (step_page (case_steps tc ! i)) (step_page (case_steps tc ! Suc i))
               \<in> edge_id ` set (edges (buildGraph_cases L tcs))"
    unfolding buildGraph_cases_edge_id_set using assms(1) by force
qed

lemma buildGraph_one_edge:
  assumes "d \<in> set (graph_edges g)"
  shows "\<exists>!e. e \<in> set (edges (buildGraph L g)) \<and> edge_id e = edgeId (ge_source d) (ge_target d)"
proof (rule unique_by_id)
  show "distinct (map edge_id (edges (buildGraph L g)))"
    by (rule buildGraph_edge_ids_distinct)
  show "edgeId (ge_source d) (ge_target d) \<in> edge_id ` set (edges (buildGraph L g))"
    unfolding buildGraph_edge_id_set using assms by (rule imageI)
qed

lemma buildGraph_meta_one_edge:
  assumes "d \<in> set (meta_edges g)"
  shows "\<exists>!e. e \<in> set (edges (buildGraph_meta L g)) \<and>
              edge_id e = edgeId (me_source d) (me_target d)"
proof (rule unique_by_id)
  show "distinct (map edge_id (edges (buildGraph_meta L g)))"
    by (rule buildGraph_meta_edge_ids_distinct)
  show "edgeId (me_source d) (me_target d) \<in> edge_id ` set (edges (buildGraph_meta L g))"
    unfolding buildGraph_meta_edge_id_set using assms by (rule imageI)
qed

text \<open>
  C6. In the graph built by any of the three builders no two edges have the same pair of
  source and target, and the id of every edge is its source, the arrow and its target.
  Every observation of a transition (two consecutive steps of a test case at different
  pages, or an entry of an explicit edge list) is met by exactly one edge of the built
  graph with the id made of its source and target, however often it is observed.
\<close>

theorem one_edge_per_source_target_pair:
  "(distinct (map (\<lambda>e. (source e, target e)) (edges (buildGraph_cases L tcs)))
    \<and> (\<forall>e \<in> set (edges (buildGraph_cases L tcs)). edge_id e = edgeId (source e) (target e))
    \<and> (\<forall>tc \<in> set tcs. \<forall>i.
          Suc i < length (case_steps tc) \<and>
          step_page (case_steps tc ! i) \<noteq> step_page (case_steps tc ! Suc i) \<longrightarrow>
          (\<exists>!e. e \<in> set (edges (buildGraph_cases L tcs)) \<and>
                edge_id e = edgeId (step_page (case_steps tc ! i))
                                   (step_page (case_steps tc ! Suc i)))))
   \<and> (distinct (map (\<lambda>e. (source e, target e)) (edges (buildGraph L g)))
    \<and> (\<forall>e \<in> set (edges (buildGraph L g)). edge_id e = edgeId (source e) (target e))
    \<and> (\<forall>d \<in> set (graph_edges g).
          \<exists>!e. e \<in> set (edges (buildGraph L g)) \<and>
               edge_id e = edgeId (ge_source d) (ge_target d)))
   \<and> (distinct (map (\<lambda>e. (source e, target e)) (edges (buildGraph_meta L h)))
    \<and> (\<forall>e \<in> set (edges (buildGraph_meta L h)). edge_id e = edgeId (source e) (target e))
    \<and> (\<forall>d \<in> set (meta_edges h).
          \<exists>!e. e \<in> set (edges (buildGraph_meta L h)) \<and>
               edge_id e = edgeId (me_source d) (me_target d)))"
proof -
  have c: "\<forall>e \<in> set (edges (buildGraph_cases L tcs)). edge_id e = edgeId (source e) (target e)"
    using buildGraph_cases_canonical by blast
  have g: "\<forall>e \<in> set (edges (buildGraph L g)). edge_id e = edgeId (source e) (target e)"
    using buildGraph_canonical by blast
  have h: "\<forall>e \<in> set (edges (buildGraph_meta L h)). edge_id e = edgeId (source e) (target e)"
    using buildGraph_meta_canonical by blast
  have "distinct (map (\<lambda>e. (source e, target e)) (edges (buildGraph_cases L tcs)))"
    using buildGraph_cases_edge_ids_distinct c by (rule canonical_ids_distinct_pairs)
  moreover have "distinct (map (\<lambda>e. (source e, target e)) (edges (buildGraph L g)))"
    using buildGraph_edge_ids_distinct g by (rule canonical_ids_distinct_pairs)
  moreover have "distinct (map (\<lambda>e. (source e, target e)) (edges (buildGraph_meta L h)))"
    using buildGraph_meta_edge_ids_distinct h by (rule canonical_ids_distinct_pairs)
  moreover have "\<forall>tc \<in> set tcs. \<forall>i.
          Suc i < length (case_steps tc) \<and>
          step_page (case_steps tc ! i) \<noteq> step_page (case_steps tc ! Suc i) \<longrightarrow>
          (\<exists>!e. e \<in> set (edges (buildGraph_cases L tcs)) \<and>
                edge_id e = edgeId (step_page (case_steps tc ! i))
                                   (step_page (case_steps tc ! Suc i)))"
    using buildGraph_cases_one_edge by blast
  moreover have "\<forall>d \<in> set (graph_edges g).
          \<exists>!e. e \<in> set (edges (buildGraph L g)) \<and> edge_id e = edgeId (ge_source d) (ge_target d)"
    using buildGraph_one_edge by blast
  moreover have "\<forall>d \<in> set (meta_edges h).
          \<exists>!e. e \<in> set (edges (buildGraph_meta L h)) \<and>
               edge_id e = edgeId (me_source d) (me_target d)"
    using buildGraph_meta_one_edge by blast
  ultimately show ?thesis
    using c g h by (intro conjI)
qed

text \<open>
  Every transition of the mock test cases observed twice, every edge of the mock graph
  given twice, and the first edge of the mock graph with metadata given twice: one
  edge each.
\<close>

theorem one_edge_per_source_target_pair_witness:
  "(\<exists>!e. e \<in> set (edges (buildGraph_cases originLayout (mockCases @ mockCases))) \<and>
         edge_id e = ''/login->/dashboard'')
   \<and> (\<exists>!e. e \<in> set (edges (buildGraph originLayout doubledGraph)) \<and>
         edge_id e = ''/login->/cart'')
   \<and> (\<exists>!e. e \<in> set (edges (buildGraph_meta originLayout relabelledGraph)) \<and>
         edge_id e = ''node-1->node-2'')
   \<and> distinct (map (\<lambda>e. (source e, target e))
        (edges (buildGraph_cases originLayout (mockCases @ mockCases))))
   \<and> distinct (map (\<lambda>e. (source e, target e)) (edges (buildGraph originLayout doubledGraph)))
   \<and> distinct (map (\<lambda>e. (source e, target e))
        (edges (buildGraph_meta originLayout relabelledGraph)))"
proof -
  note all = one_edge_per_source_target_pair
    [of originLayout "mockCases @ mockCases" doubledGraph relabelledGraph]
  note cases_part = all [THEN conjunct1]
  note graph_part = all [THEN conjunct2, THEN conjunct1]
  note meta_part = all [THEN conjunct2, THEN conjunct2]
  have tc: "hd mockCases \<in> set (mockCases @ mockCases)"
    by (simp add: mockCases_def)
  have i: "Suc 1 < length (case_steps (hd mockCases)) \<and>
           step_page (case_steps (hd mockCases) ! 1) \<noteq> step_page (case_steps (hd mockCases) ! Suc 1)"
    by (simp add: mockCases_def)
  have id1: "edgeId (step_page (case_steps (hd mockCases) ! 1))
                    (step_page (case_steps (hd mockCases) ! Suc 1)) = ''/login->/dashboard''"
    by (simp add: mockCases_def edgeId_def)
  have a: "\<exists>!e. e \<in> set (edges (buildGraph_cases originLayout (mockCases @ mockCases))) \<and>
         edge_id e = ''/login->/dashboard''"
    using cases_part [THEN conjunct2, THEN conjunct2, rule_format, OF tc i]
    unfolding id1 .
  have d: "\<lparr>ge_source = ''/login'', ge_target = ''/cart''\<rparr> \<in> set (graph_edges doubledGraph)"
    by (simp add: doubledGraph_def mockGraph_def)
  have b: "\<exists>!e. e \<in> set (edges (buildGraph originLayout doubledGraph)) \<and>
         edge_id e = ''/login->/cart''"
    using graph_part [THEN conjunct2, THEN conjunct2, rule_format, OF d]
    by (simp add: edgeId_def)
  have d': "\<lparr>me_source = ''node-1'', me_target = ''node-2'', me_label = ''Search again''\<rparr>
              \<in> set (meta_edges relabelledGraph)"
    by (simp add: relabelledGraph_def)
  have c: "\<exists>!e. e \<in> set (edges (buildGraph_meta originLayout relabelledGraph)) \<and>
         edge_id e = ''node-1->node-2''"
    using meta_part [THEN conjunct2, THEN conjunct2, rule_format, OF d']
    by (simp add: edgeId_def)
  show ?thesis
    using a b c cases_part [THEN conjunct1] graph_part [THEN conjunct1] meta_part [THEN conjunct1]
    by (intro conjI)
qed

section \<open>Which of several edges with one id is kept\<close>

lemma find_map_edges: "find P (map f xs) = map_option f (find (\<lambda>x. P (f x)) xs)"
  by (induction xs) auto

lemma find_same:
  assumes "\<forall>x \<in> set xs. P x \<longleftrightarrow> Q x"
  shows "find P xs = find Q xs"
  using assms by (induction xs) auto

lemma arrow_suffix_split:
  assumes "''->'' @ t = w @ ''->'' @ t'" and "w \<noteq> []"
  shows "\<exists>w'. w = ''->'' @ w'"
proof (cases w)
  case Nil
  with assms(2) show ?thesis by simp
next
  case (Cons c w1)
  show ?thesis
  proof (cases w1)
    case Nil
    with Cons assms(1) show ?thesis by simp
  next
    case (Cons c2 w2)
    with \<open>w = c # w1\<close> assms(1) show ?thesis by simp
  qed
qed

lemma edgeId_inj_sources:
  assumes eq: "edgeId s t = edgeId s' t'"
      and s: "\<forall>u v. s \<noteq> u @ ''->'' @ v" and s': "\<forall>u v. s' \<noteq> u @ ''->'' @ v"
  shows "s = s' \<and> t = t'"
proof -
  from eq have "s @ (''->'' @ t) = s' @ (''->'' @ t')"
    by (simp add: edgeId_def)
  then obtain w where w: "s = s' @ w \<and> w @ (''->'' @ t) = ''->'' @ t' \<or>
                         s @ w = s' \<and> ''->'' @ t = w @ (''->'' @ t')"
    unfolding append_eq_append_conv2 by blast
  have "w = []"
  proof (rule ccontr)
    assume ne: "w \<noteq> []"
    from w show False
    proof
      assume a: "s = s' @ w \<and> w @ (''->'' @ t) = ''->'' @ t'"
      then have "''->'' @ t' = w @ ''->'' @ t"
        by simp
      then obtain w' where "w = ''->'' @ w'"
        using ne arrow_suffix_split by blast
      with a have "s = s' @ ''->'' @ w'"
        by simp
      with s show False by blast
    next
      assume a: "s @ w = s' \<and> ''->'' @ t = w @ (''->'' @ t')"
      then obtain w' where "w = ''->'' @ w'"
        using ne arrow_suffix_split by blast
      with a have "s' = s @ ''->'' @ w'"
        by simp
      with s' show False by blast
    qed
  qed
  with w show ?thesis by auto
qed

lemma arrow_free_sources_same_pair:
  assumes "\<forall>x \<in> set es. \<forall>u v. me_source x \<noteq> u @ ''->'' @ v" and "d \<in> set es"
  shows "\<forall>x \<in> set es.
           edgeId (me_source x) (me_target x) = edgeId (me_source d) (me_target d) \<longrightarrow>
           me_source x = me_source d \<and> me_target x = me_target d"
  using assms edgeId_inj_sources by blast

lemma buildGraph_meta_first_kept:
  assumes "find (\<lambda>x. edgeId (me_source x) (me_target x) = k) (meta_edges g) = Some f"
  shows "newLabelledEdge (me_source f) (me_target f) (me_label f)
           \<in> set (edges (buildGraph_meta L g))"
  unfolding edges_buildGraph_meta
proof (rule dedup_first)
  show "find (\<lambda>d. edge_id d = k)
          (map (\<lambda>d. newLabelledEdge (me_source d) (me_target d) (me_label d)) (meta_edges g))
        = Some (newLabelledEdge (me_source f) (me_target f) (me_label f))"
    using assms by (simp add: find_map_edges)
qed

text \<open>
  C9, as the code has it. The explicit builder keeps the first edge per edge id: for
  every input edge \<open>d\<close> there is a first input edge \<open>f\<close> with the id of \<open>d\<close>, the edge
  built from \<open>f\<close> (its source, target and label, and the fixed styling) is in the built
  graph, and it is the only edge of the built graph with that id, so that later edges
  with the id leave no trace. When every input edge with the id of \<open>d\<close> has the source
  and target of \<open>d\<close>, this \<open>f\<close> is the first input edge with the source and target of
  \<open>d\<close>; by \<open>arrow_free_sources_same_pair\<close> that is so whenever no source id of the
  edge list contains the arrow.
\<close>

theorem first_edge_per_id_is_kept:
  "\<forall>d \<in> set (meta_edges g).
     \<exists>f. find (\<lambda>x. edgeId (me_source x) (me_target x) = edgeId (me_source d) (me_target d))
            (meta_edges g) = Some f
        \<and> newLabelledEdge (me_source f) (me_target f) (me_label f)
             \<in> set (edges (buildGraph_meta L g))
        \<and> (\<forall>e \<in> set (edges (buildGraph_meta L g)).
             edge_id e = edgeId (me_source d) (me_target d) \<longrightarrow>
             e = newLabelledEdge (me_source f) (me_target f) (me_label f))
        \<and> ((\<forall>x \<in> set (meta_edges g).
               edgeId (me_source x) (me_target x) = edgeId (me_source d) (me_target d) \<longrightarrow>
               me_source x = me_source d \<and> me_target x = me_target d) \<longrightarrow>
            find (\<lambda>x. me_source x = me_source d \<and> me_target x = me_target d) (meta_edges g)
              = Some f)"
proof
  fix d
  assume d: "d \<in> set (meta_edges g)"
  let ?k = "edgeId (me_source d) (me_target d)"
  let ?P = "\<lambda>x. edgeId (me_source x) (me_target x) = ?k"
  let ?Q = "\<lambda>x. me_source x = me_source d \<and> me_target x = me_target d"
  from d have "find ?P (meta_edges g) \<noteq> None"
    unfolding find_None by blast
  then obtain f where f: "find ?P (meta_edges g) = Some f"
    by blast
  let ?e = "newLabelledEdge (me_source f) (me_target f) (me_label f)"
  have kept: "?e \<in> set (edges (buildGraph_meta L g))"
    using f by (rule buildGraph_meta_first_kept)
  have "?P f"
    using f find_member by fastforce
  then have id: "edge_id ?e = ?k"
    by simp
  have only: "\<forall>e \<in> set (edges (buildGraph_meta L g)). edge_id e = ?k \<longrightarrow> e = ?e"
  proof (intro ballI impI)
    fix e
    assume e: "e \<in> set (edges (buildGraph_meta L g))" "edge_id e = ?k"
    have "\<exists>!e. e \<in> set (edges (buildGraph_meta L g)) \<and> edge_id e = ?k"
      using d by (rule buildGraph_meta_one_edge)
    with e kept id show "e = ?e"
      by blast
  qed
  have first: "(\<forall>x \<in> set (meta_edges g). ?P x \<longrightarrow> ?Q x) \<longrightarrow> find ?Q (meta_edges g) = Some f"
  proof
    assume "\<forall>x \<in> set (meta_edges g). ?P x \<longrightarrow> ?Q x"
    then have "\<forall>x \<in> set (meta_edges g). ?Q x \<longleftrightarrow> ?P x"
      by auto
    then have "find ?Q (meta_edges g) = find ?P (meta_edges g)"
      by (rule find_same)
    with f show "find ?Q (meta_edges g) = Some f"
      by simp
  qed
  from f kept only first
  show "\<exists>f. find ?P (meta_edges g) = Some f
          \<and> newLabelledEdge (me_source f) (me_target f) (me_label f)
               \<in> set (edges (buildGraph_meta L g))
          \<and> (\<forall>e \<in> set (edges (buildGraph_meta L g)).
               edge_id e = ?k \<longrightarrow> e = newLabelledEdge (me_source f) (me_target f) (me_label f))
          \<and> ((\<forall>x \<in> set (meta_edges g). ?P x \<longrightarrow> ?Q x) \<longrightarrow> find ?Q (meta_edges g) = Some f)"
    by (intro exI [of _ f] conjI)
qed

text \<open>
  In the mock graph whose first edge comes once more as its last, under the label
  \<open>Search again\<close>, the edge of the built graph carries the first label \<open>Search\<close>.
\<close>

theorem first_edge_per_id_is_kept_witness:
  "\<lparr>me_source = ''node-1'', me_target = ''node-2'', me_label = ''Search again''\<rparr>
     \<in> set (meta_edges relabelledGraph)
   \<and> find (\<lambda>x. me_source x = ''node-1'' \<and> me_target x = ''node-2'') (meta_edges relabelledGraph)
       = Some \<lparr>me_source = ''node-1'', me_target = ''node-2'', me_label = ''Search''\<rparr>
   \<and> newLabelledEdge ''node-1'' ''node-2'' ''Search''
       \<in> set (edges (buildGraph_meta originLayout relabelledGraph))
   \<and> newLabelledEdge ''node-1'' ''node-2'' ''Search again''
       \<notin> set (edges (buildGraph_meta originLayout relabelledGraph))"
proof -
  let ?d = "\<lparr>me_source = ''node-1'', me_target = ''node-2'', me_label = ''Search again''\<rparr>"
  let ?f = "\<lparr>me_source = ''node-1'', me_target = ''node-2'', me_label = ''Search''\<rparr>"
  have d: "?d \<in> set (meta_edges relabelledGraph)"
    by (simp add: relabelledGraph_def)
  have first: "find (\<lambda>x. edgeId (me_source x) (me_target x) = edgeId (me_source ?d) (me_target ?d))
                 (meta_edges relabelledGraph) = Some ?f"
    by (simp add: relabelledGraph_def mockGraph_meta_def edgeId_def)
  have first': "find (\<lambda>x. me_source x = ''node-1'' \<and> me_target x = ''node-2'')
                  (meta_edges relabelledGraph) = Some ?f"
    by (simp add: relabelledGraph_def mockGraph_meta_def)
  from first_edge_per_id_is_kept [of relabelledGraph originLayout, rule_format, OF d]
  obtain f where f: "find (\<lambda>x. edgeId (me_source x) (me_target x) = edgeId (me_source ?d) (me_target ?d))
                       (meta_edges relabelledGraph) = Some f"
    and kept: "newLabelledEdge (me_source f) (me_target f) (me_label f)
                 \<in> set (edges (buildGraph_meta originLayout relabelledGraph))"
    and only: "\<forall>e \<in> set (edges (buildGraph_meta originLayout relabelledGraph)).
                 edge_id e = edgeId (me_source ?d) (me_target ?d) \<longrightarrow>
                 e = newLabelledEdge (me_source f) (me_target f) (me_label f)"
    by blast
  from f first have ff: "f = ?f"
    by simp
  have in_graph: "newLabelledEdge ''node-1'' ''node-2'' ''Search''
       \<in> set (edges (buildGraph_meta originLayout relabelledGraph))"
    using kept unfolding ff by simp
  have "newLabelledEdge ''node-1'' ''node-2'' ''Search again''
       \<notin> set (edges (buildGraph_meta originLayout relabelledGraph))"
  proof
    assume "newLabelledEdge ''node-1'' ''node-2'' ''Search again''
       \<in> set (edges (buildGraph_meta originLayout relabelledGraph))"
    then have "newLabelledEdge ''node-1'' ''node-2'' ''Search again''
               = newLabelledEdge (me_source f) (me_target f) (me_label f)"
      using only by simp
    then show False
      unfolding ff by (simp add: newLabelledEdge_def)
  qed
  with d first' in_graph show ?thesis
    by (intro conjI)
qed

text \<open>
  C9 as stated fails when ids collide. In the graph with the node ids \<open>a->b\<close>, \<open>c\<close>,
  \<open>a\<close> and \<open>b->c\<close>, two input edges lead from \<open>a\<close> to \<open>b->c\<close>, the first of them
  labelled \<open>second\<close>. An earlier edge from \<open>a->b\<close> to \<open>c\<close> has the same id, and the one
  edge of the built graph is that one, with its label \<open>first\<close>: no edge from \<open>a\<close> to
  \<open>b->c\<close> survives.
\<close>

theorem colliding_ids_drop_the_pair:
  "edges (buildGraph_meta originLayout collidingGraph) = [newLabelledEdge ''a->b'' ''c'' ''first'']
   \<and> edge_label (newLabelledEdge ''a->b'' ''c'' ''first'') = Some ''first''
   \<and> source (newLabelledEdge ''a->b'' ''c'' ''first'') = ''a->b''"
  by (simp add: eval_defs collidingGraph_def)

end
